theory Spec2Isabelle
  imports Main "HOL-Library.Sublist" "HOL-Library.Multiset" "HOL-Library.Product_Lexorder"
    "HOL-Library.Extended_Nat"
begin

section \<open>Strings of the source language\<close>

text \<open>
  A Python \<^verbatim>\<open>str\<close> is a sequence of Unicode code points, and \<^verbatim>\<open>len\<close> counts code
  points. The crawler works on Chinese titles, so a string is modelled as a list of
  code points (natural numbers) and not as a list of bytes.
\<close>

type_synonym ustring = "nat list"

definition ascii :: "string \<Rightarrow> ustring" where
  "ascii s = map of_char s"

text \<open>
  The regular-expression class \<^verbatim>\<open>\d\<close>, \<^verbatim>\<open>str.isdigit\<close> on the strings met here, and
  \<^verbatim>\<open>int\<close> all rest on the decimal digits of the Unicode database (category Nd). They come
  in blocks of ten consecutive code points with the values 0 to 9; the table lists the
  first code point of every block (Unicode 14.0).
\<close>

definition nd_starts :: "nat list" where
  "nd_starts = [48, 1632, 1776, 1984, 2406, 2534, 2662, 2790, 2918, 3046, 3174, 3302,
     3430, 3558, 3664, 3792, 3872, 4160, 4240, 6112, 6160, 6470, 6608, 6784, 6800, 6992,
     7088, 7232, 7248, 42528, 43216, 43264, 43472, 43504, 43600, 44016, 65296, 66720,
     68912, 69734, 69872, 69942, 70096, 70384, 70736, 70864, 71248, 71360, 71472, 71904,
     72016, 72784, 73040, 73120, 92768, 92864, 93008, 120782, 120792, 120802, 120812,
     120822, 123200, 123632, 125264, 130032]"

definition digit_value :: "nat \<Rightarrow> nat option" where
  "digit_value c =
     (case find (\<lambda>s. s \<le> c \<and> c < s + 10) nd_starts of
        None \<Rightarrow> None
      | Some s \<Rightarrow> Some (c - s))"

definition is_digit :: "nat \<Rightarrow> bool" where
  "is_digit c = (digit_value c \<noteq> None)"

text \<open>
  \<^verbatim>\<open>str.strip()\<close> and the class \<^verbatim>\<open>\s\<close> use the same set of white-space code points.
\<close>

definition whitespace :: "nat list" where
  "whitespace = [9, 10, 11, 12, 13, 28, 29, 30, 31, 32, 133, 160, 5760, 8192, 8193, 8194,
     8195, 8196, 8197, 8198, 8199, 8200, 8201, 8202, 8232, 8233, 8239, 8287, 12288]"

definition is_space :: "nat \<Rightarrow> bool" where
  "is_space c = (c \<in> set whitespace)"

definition strip :: "ustring \<Rightarrow> ustring" where
  "strip s = rev (dropWhile is_space (rev (dropWhile is_space s)))"

text \<open>\<^verbatim>\<open>w in s\<close> for two strings: \<open>w\<close> occurs in \<open>s\<close> as a contiguous block.\<close>

fun contains :: "ustring \<Rightarrow> ustring \<Rightarrow> bool" where
  "contains w [] = (w = [])"
| "contains w (c # cs) = (prefix w (c # cs) \<or> contains w cs)"

text \<open>\<^verbatim>\<open>s.endswith(w)\<close>.\<close>

definition endswith :: "ustring \<Rightarrow> ustring \<Rightarrow> bool" where
  "endswith s w = prefix (rev w) (rev s)"

text \<open>
  \<^verbatim>\<open>int(s)\<close> on a string of decimal digits. The source calls it only on text that
  \<^verbatim>\<open>\d+\<close> has matched; the interpreter's optional limit on the number of digits of such
  a conversion is not modelled, so the conversion is total here.
\<close>

definition py_int :: "ustring \<Rightarrow> nat" where
  "py_int s = foldl (\<lambda>a c. 10 * a + (case digit_value c of Some d \<Rightarrow> d | None \<Rightarrow> 0)) 0 s"

subsection \<open>Characters and words the source names\<close>

abbreviation (input) slash :: nat where "slash \<equiv> 0x2F"
abbreviation (input) dot :: nat where "dot \<equiv> 0x2E"
abbreviation (input) colon :: nat where "colon \<equiv> 0x3A"
abbreviation (input) newline :: nat where "newline \<equiv> 0x0A"

text \<open>U+7B2C (ordinal prefix), U+7AE0 (chapter), U+8282 (section), U+56DE (episode).\<close>

abbreviation (input) di :: nat where "di \<equiv> 0x7B2C"
abbreviation (input) zhang :: nat where "zhang \<equiv> 0x7AE0"
abbreviation (input) jie :: nat where "jie \<equiv> 0x8282"
abbreviation (input) hui :: nat where "hui \<equiv> 0x56DE"

text \<open>The numerals one to nine, ten, hundred, thousand, ten thousand and zero.\<close>

abbreviation (input) shi :: nat where "shi \<equiv> 0x5341"

definition ch_num_map :: "(nat \<times> nat) list" where
  "ch_num_map = [(0x4E00, 1), (0x4E8C, 2), (0x4E09, 3), (0x56DB, 4), (0x4E94, 5),
     (0x516D, 6), (0x4E03, 7), (0x516B, 8), (0x4E5D, 9), (0x5341, 10),
     (0x767E, 100), (0x5343, 1000), (0x4E07, 10000), (0x96F6, 0)]"

abbreviation (input) first_chapter :: ustring where "first_chapter \<equiv> [0x7B2C, 0x4E00, 0x7AE0]"
abbreviation (input) second_chapter :: ustring where "second_chapter \<equiv> [0x7B2C, 0x4E8C, 0x7AE0]"
abbreviation (input) third_chapter :: ustring where "third_chapter \<equiv> [0x7B2C, 0x4E09, 0x7AE0]"

text \<open>Preface markers: U+5E8F, U+524D U+8A00, U+6954 U+5B50, U+7B80 U+4ECB.\<close>

definition is_preface :: "ustring \<Rightarrow> bool" where
  "is_preface t = (contains [0x5E8F] t \<or> contains [0x524D, 0x8A00] t
     \<or> contains [0x6954, 0x5B50] t \<or> contains [0x7B80, 0x4ECB] t)"

section \<open>The regular expressions of the ordering engine\<close>

text \<open>
  Each pattern is written out as the function that \<^verbatim>\<open>re.search\<close> computes for it: the
  leftmost match, greedy quantifiers, and \<^verbatim>\<open>$\<close> matching at the end of the string or just
  before a final newline.
\<close>

definition dot_html :: ustring where
  "dot_html = ascii ''.html''"

text \<open>
  \<^verbatim>\<open>/(\d+)\.html\<close> ending exactly at the end of \<open>t\<close>. The digits must be followed by the
  dot, so the group is the whole run of digits in front of the suffix, and the character
  in front of that run must be the slash.
\<close>

definition num_html_at_end :: "ustring \<Rightarrow> ustring option" where
  "num_html_at_end t =
     (if endswith t dot_html then
        (let r = drop (length dot_html) (rev t);
             ds = rev (takeWhile is_digit r)
         in (case dropWhile is_digit r of
               [] \<Rightarrow> None
             | c # _ \<Rightarrow> if c = slash \<and> ds \<noteq> [] then Some ds else None))
      else None)"

text \<open>\<^verbatim>\<open>re.search(r'/(\d+)\.html$', s)\<close>: group 1 of the match, if there is one.\<close>

definition search_num_html :: "ustring \<Rightarrow> ustring option" where
  "search_num_html s =
     (case num_html_at_end s of
        Some ds \<Rightarrow> Some ds
      | None \<Rightarrow> if s \<noteq> [] \<and> last s = newline then num_html_at_end (butlast s) else None)"

text \<open>The class of the first pattern: one of the fourteen numerals, or \<^verbatim>\<open>\d\<close>.\<close>

definition numeral_char :: "nat \<Rightarrow> bool" where
  "numeral_char c = (map_of ch_num_map c \<noteq> None \<or> is_digit c)"

text \<open>
  The first pattern (U+7B2C, a group of one or more characters of the class, U+7AE0) by
  \<^verbatim>\<open>re.search\<close>: at the leftmost ordinal prefix that is followed by a
  non-empty run of the class and then by the chapter character. Neither of the two
  literal characters is in the class, so the group is the whole run.
\<close>

fun search_di_zhang :: "ustring \<Rightarrow> ustring option" where
  "search_di_zhang [] = None"
| "search_di_zhang (c # cs) =
     (if c = di then
        (case dropWhile numeral_char cs of
           [] \<Rightarrow> search_di_zhang cs
         | z # _ \<Rightarrow>
             if z = zhang \<and> takeWhile numeral_char cs \<noteq> [] then Some (takeWhile numeral_char cs)
             else search_di_zhang cs)
      else search_di_zhang cs)"

text \<open>
  The second pattern, \<^verbatim>\<open>(\d+)\<close> and then U+7AE0 or U+8282: the leftmost run of digits
  followed by one of the two.
\<close>

fun search_num_zhang :: "ustring \<Rightarrow> ustring option" where
  "search_num_zhang [] = None"
| "search_num_zhang (c # cs) =
     (if is_digit c then
        (case dropWhile is_digit cs of
           [] \<Rightarrow> search_num_zhang cs
         | z # _ \<Rightarrow>
             if z = zhang \<or> z = jie then Some (c # takeWhile is_digit cs)
             else search_num_zhang cs)
      else search_num_zhang cs)"

text \<open>
  \<^verbatim>\<open>re.search(r'^[\s\d\.]*(\d+)[\s\.\:]', s)\<close>. The greedy prefix \<^verbatim>\<open>[\s\d\.]*\<close> first takes
  every leading character of its class and then gives characters back one at a time
  until \<^verbatim>\<open>(\d+)[\s\.\:]\<close> matches at the place where it stopped. \<open>num_sep_at\<close> is that
  inner match at the head of a string (a digit is not a separator, so only the whole run
  of digits can be followed by one); \<open>lead_try p t\<close> has the prefix taken so far in
  \<open>p\<close>, last character first, and the rest of the string in \<open>t\<close>.
\<close>

definition lead_class :: "nat \<Rightarrow> bool" where
  "lead_class c = (is_space c \<or> is_digit c \<or> c = dot)"

definition is_sep :: "nat \<Rightarrow> bool" where
  "is_sep c = (is_space c \<or> c = dot \<or> c = colon)"

definition num_sep_at :: "ustring \<Rightarrow> ustring option" where
  "num_sep_at t =
     (case dropWhile is_digit t of
        [] \<Rightarrow> None
      | z # _ \<Rightarrow> if is_sep z \<and> takeWhile is_digit t \<noteq> [] then Some (takeWhile is_digit t) else None)"

fun lead_try :: "ustring \<Rightarrow> ustring \<Rightarrow> ustring option" where
  "lead_try [] t = num_sep_at t"
| "lead_try (c # given) t =
     (case num_sep_at t of
        Some g \<Rightarrow> Some g
      | None \<Rightarrow> lead_try given (c # t))"

definition search_leading_num :: "ustring \<Rightarrow> ustring option" where
  "search_leading_num s = lead_try (rev (takeWhile lead_class s)) (dropWhile lead_class s)"

section \<open>Title ordinals: \<^verbatim>\<open>extract_chapter_number\<close>\<close>

definition extract_chapter_number :: "ustring \<Rightarrow> nat option" where
  "extract_chapter_number t =
     (case search_di_zhang t of
        Some num_str \<Rightarrow>
          if list_all is_digit num_str then Some (py_int num_str)
          else (case num_str of
                  [c] \<Rightarrow> (case map_of ch_num_map c of Some v \<Rightarrow> Some v | None \<Rightarrow> Some 999)
                | [c, d] \<Rightarrow>
                    (if c = shi then
                       (case map_of ch_num_map d of Some v \<Rightarrow> Some (10 + v) | None \<Rightarrow> Some 999)
                     else Some 999)
                | _ \<Rightarrow> Some 999)
      | None \<Rightarrow>
          (case search_num_zhang t of
             Some g \<Rightarrow> Some (py_int g)
           | None \<Rightarrow>
               (case search_leading_num t of
                  Some g \<Rightarrow> Some (py_int g)
                | None \<Rightarrow> None)))"

section \<open>The ordering engine: \<^verbatim>\<open>process_and_sort_chapters\<close>\<close>

text \<open>
  A chapter is a dictionary read with \<^verbatim>\<open>chapter.get("title", "")\<close> and
  \<^verbatim>\<open>chapter.get("url", "")\<close>; a key may be missing, and every other key is carried along
  untouched (the extension of the record).
\<close>

record chapter_dict =
  title :: "ustring option"
  url :: "ustring option"

definition get_title :: "'a chapter_dict_scheme \<Rightarrow> ustring" where
  "get_title c = (case title c of None \<Rightarrow> [] | Some t \<Rightarrow> t)"

definition get_url :: "'a chapter_dict_scheme \<Rightarrow> ustring" where
  "get_url c = (case url c of None \<Rightarrow> [] | Some u \<Rightarrow> u)"

text \<open>The number in the location, \<open>url_num\<close> of the source.\<close>

definition url_number :: "ustring \<Rightarrow> nat option" where
  "url_number u = map_option py_int (search_num_html u)"

text \<open>
  The special sequence number. \<open>un\<close> is the location number, \<open>cn\<close> the title ordinal,
  \<open>t\<close> the stripped title.
\<close>

definition sequence_of :: "ustring \<Rightarrow> nat option \<Rightarrow> nat option \<Rightarrow> int" where
  "sequence_of t un cn =
     (if is_preface t then 0
      else if un = Some 1 \<or> cn = Some 1 \<or> contains first_chapter t then 1
      else if un = Some 2 \<or> cn = Some 2 \<or> contains second_chapter t then 2
      else if un = Some 3 \<or> cn = Some 3 \<or> contains third_chapter t then 3
      else 0)"

text \<open>
  The priority. \<^verbatim>\<open>url_num and url_num < 10\<close> holds for a number that is present, not 0
  and below the bound; \<open>when_small\<close> hands that number on.
\<close>

definition when_small :: "nat option \<Rightarrow> nat \<Rightarrow> nat option" where
  "when_small n b =
     (case n of None \<Rightarrow> None | Some k \<Rightarrow> if k \<noteq> 0 \<and> k < b then Some k else None)"

definition priority_of :: "ustring \<Rightarrow> nat option \<Rightarrow> nat option \<Rightarrow> int" where
  "priority_of t un cn =
     (if un = Some 1 \<or> (contains first_chapter t \<and> un = None) then 1000
      else if un = Some 2 \<or> (contains second_chapter t \<and> un = None) then 900
      else if un = Some 3 \<or> (contains third_chapter t \<and> un = None) then 800
      else (case when_small un 10 of
              Some k \<Rightarrow> 700 - int k
            | None \<Rightarrow>
                if is_preface t then 500
                else (case when_small un 100 of
                        Some k \<Rightarrow> 400 - int k
                      | None \<Rightarrow>
                          (case when_small cn 100 of
                             Some k \<Rightarrow> 300 - int k
                           | None \<Rightarrow> 0))))"

text \<open>One entry of \<open>chapters_with_info\<close>.\<close>

record 'a chapter_info =
  original_index :: nat
  info_title :: ustring
  info_url :: ustring
  chapter_num :: "nat option"
  url_num :: "nat option"
  sequence :: int
  priority :: int
  original :: "'a chapter_dict_scheme"

definition make_info :: "nat \<Rightarrow> 'a chapter_dict_scheme \<Rightarrow> 'a chapter_info" where
  "make_info i c =
     (let t = strip (get_title c);
          u = get_url c;
          un = url_number u;
          cn = extract_chapter_number t
      in \<lparr>original_index = i, info_title = t, info_url = u, chapter_num = cn, url_num = un,
          sequence = sequence_of t un cn, priority = priority_of t un cn, original = c\<rparr>)"

text \<open>The loop \<^verbatim>\<open>for i, chapter in enumerate(chapters)\<close>, started at index \<open>i\<close>.\<close>

fun infos_from :: "nat \<Rightarrow> 'a chapter_dict_scheme list \<Rightarrow> 'a chapter_info list" where
  "infos_from i [] = []"
| "infos_from i (c # cs) = make_info i c # infos_from (Suc i) cs"

text \<open>The sort key of the source, a tuple compared lexicographically.\<close>

definition absent_key :: int where
  "absent_key = 999999"

definition or_absent :: "nat option \<Rightarrow> int" where
  "or_absent n = (case n of None \<Rightarrow> absent_key | Some k \<Rightarrow> int k)"

definition sort_tuple :: "'a chapter_info \<Rightarrow> int \<times> int \<times> int \<times> int \<times> nat" where
  "sort_tuple x =
     (or_absent (url_num x), or_absent (chapter_num x), - priority x, sequence x,
      original_index x)"

text \<open>
  \<^verbatim>\<open>list.sort\<close> is a stable sort, as \<open>sort_key\<close> is. The statistics on chapter numbers
  that the source computes between the loop and the sort only feed the log and are left
  out.
\<close>

definition process_and_sort_chapters :: "'a chapter_dict_scheme list \<Rightarrow> 'a chapter_dict_scheme list" where
  "process_and_sort_chapters chapters =
     (if chapters = [] then []
      else map original (sort_key sort_tuple (infos_from 0 chapters)))"

subsection \<open>The key without the position\<close>

text \<open>
  The first four components of the sort key depend on the chapter alone; the fifth is
  the position in the input.
\<close>

definition chapter_key :: "'a chapter_dict_scheme \<Rightarrow> int \<times> int \<times> int \<times> int" where
  "chapter_key c =
     (let x = make_info 0 c
      in (or_absent (url_num x), or_absent (chapter_num x), - priority x, sequence x))"

subsection \<open>The sort key in the words of the specification\<close>

text \<open>
  The specification gives the same precedence of keys, with an absent location ordinal
  and an absent title ordinal sorting as plus infinity. \<open>spec_order\<close> is the ordering
  that this wording describes, to be compared with \<open>process_and_sort_chapters\<close>.
\<close>

definition spec_ordinal :: "nat option \<Rightarrow> enat" where
  "spec_ordinal n = (case n of None \<Rightarrow> \<infinity> | Some k \<Rightarrow> enat k)"

definition spec_sort_tuple :: "'a chapter_info \<Rightarrow> enat \<times> enat \<times> int \<times> int \<times> nat" where
  "spec_sort_tuple x =
     (spec_ordinal (url_num x), spec_ordinal (chapter_num x), - priority x, sequence x,
      original_index x)"

definition spec_order :: "'a chapter_dict_scheme list \<Rightarrow> 'a chapter_dict_scheme list" where
  "spec_order chapters = map original (sort_key spec_sort_tuple (infos_from 0 chapters))"

subsection \<open>Sample candidates\<close>

text \<open>
  A first chapter whose page id is 1000000, an afterword (U+540E U+8BB0) and an extra
  (U+756A U+5916) on pages without a number, and the two candidates of the
  specification's example of numeric dominance.
\<close>

definition ex_chapter_one :: chapter_dict where
  "ex_chapter_one =
     \<lparr>title = Some first_chapter, url = Some (ascii ''http://x/book/1000000.html'')\<rparr>"

definition ex_afterword :: chapter_dict where
  "ex_afterword =
     \<lparr>title = Some [0x540E, 0x8BB0], url = Some (ascii ''http://x/book/end.html'')\<rparr>"

definition ex_extra :: chapter_dict where
  "ex_extra =
     \<lparr>title = Some [0x756A, 0x5916], url = Some (ascii ''http://x/book/extra.html'')\<rparr>"

definition ex_intro5 :: chapter_dict where
  "ex_intro5 = \<lparr>title = Some (ascii ''Intro''), url = Some (ascii ''http://x/book/5.html'')\<rparr>"

definition ex_first3 :: chapter_dict where
  "ex_first3 = \<lparr>title = Some first_chapter, url = Some (ascii ''http://x/book/3.html'')\<rparr>"

section \<open>The link classifier: \<^verbatim>\<open>is_likely_chapter_link\<close>\<close>

text \<open>
  The words that reject a link (log in U+767B U+5F55, register U+6CE8 U+518C, home page
  U+9996 U+9875, log in U+767B U+9646, help U+5E2E U+52A9, settings U+8BBE U+7F6E) and
  the names of special sections that accept one.
\<close>

definition blocklist :: "ustring list" where
  "blocklist = [[0x767B, 0x5F55], [0x6CE8, 0x518C], [0x9996, 0x9875], [0x767B, 0x9646],
     [0x5E2E, 0x52A9], [0x8BBE, 0x7F6E]]"

definition special_names :: "ustring list" where
  "special_names = [[0x5E8F, 0x8A00], [0x5E8F, 0x7AE0], [0x524D, 0x8A00], [0x5F15, 0x8A00],
     [0x6954, 0x5B50], [0x5C3E, 0x58F0], [0x540E, 0x8BB0], [0x756A, 0x5916]]"

text \<open>
  The pattern U+7B2C, \<^verbatim>\<open>.+\<close>, one of U+7AE0 U+8282 U+56DE: after some ordinal prefix, on
  the same line (the dot does not match a newline), a marker that is not the very next
  character.
\<close>

definition is_marker :: "nat \<Rightarrow> bool" where
  "is_marker c = (c = zhang \<or> c = jie \<or> c = hui)"

fun search_ordinal_marker :: "ustring \<Rightarrow> bool" where
  "search_ordinal_marker [] = False"
| "search_ordinal_marker (c # cs) =
     ((c = di \<and> list_ex is_marker (tl (takeWhile (\<lambda>x. x \<noteq> newline) cs)))
      \<or> search_ordinal_marker cs)"

text \<open>
  \<^verbatim>\<open>re.search(r'^\d+\.?\s*\D+', s)\<close>: the digits at the head must be the whole run (what
  follows has to start with a character that is not a digit), and one more character
  after the run is enough, since the optional dot and the white space may match nothing.
\<close>

definition search_leading_number :: "ustring \<Rightarrow> bool" where
  "search_leading_number s = (takeWhile is_digit s \<noteq> [] \<and> dropWhile is_digit s \<noteq> [])"

datatype reason = NonChapterKeyword | TitleTooShort | OrdinalMarker | LeadingNumber
  | SpecialSection | NumericPath | NoPattern

definition is_likely_chapter_link :: "ustring \<Rightarrow> ustring \<Rightarrow> bool \<times> reason" where
  "is_likely_chapter_link title0 href =
     (let t = strip title0
      in if list_ex (\<lambda>x. contains x t) blocklist then (False, NonChapterKeyword)
         else if length t < 2 then (False, TitleTooShort)
         else if search_ordinal_marker t then (True, OrdinalMarker)
         else if search_leading_number t then (True, LeadingNumber)
         else if list_ex (\<lambda>x. contains x t) special_names then (True, SpecialSection)
         else if search_num_html href \<noteq> None then (True, NumericPath)
         else (False, NoPattern))"

section \<open>Listing page or chapter page: \<^verbatim>\<open>is_directory_page\<close>\<close>

definition is_directory_page :: "ustring \<Rightarrow> bool" where
  "is_directory_page u =
     (if endswith u [slash] \<or> \<not> endswith u dot_html then True
      else if search_num_html u \<noteq> None then False
      else True)"

section \<open>Fetching one chapter: \<^verbatim>\<open>crawl_chapter\<close>\<close>

text \<open>
  The page fetcher, the HTML parser, the patterns that pick text out of markup,
  \<^verbatim>\<open>urljoin\<close> and \<^verbatim>\<open>clean_content\<close> are collaborators outside the core. A fetched
  chapter page is modelled by what they return for it: the text of the content
  \<^verbatim>\<open>div\<close> found by the parser, group 1 of the first content pattern that matches, of the
  first title pattern that matches, and so on; \<open>None\<close> where nothing is found.
\<close>

record chapter_page =
  soup_content :: "ustring option"
  regex_content :: "ustring option"
  title_match :: "ustring option"
  prev_href :: "ustring option"
  next_href :: "ustring option"
  index_href :: "ustring option"
  meta_novel_name :: "ustring option"
  meta_author :: "ustring option"
  meta_category :: "ustring option"

text \<open>
  What a probe of a guessed first-chapter location shows: whether the markup holds one
  of the two content markers, and group 1 of the \<^verbatim>\<open>h1\<close> pattern.
\<close>

record probe_page =
  has_content_marker :: bool
  h1_match :: "ustring option"

text \<open>
  What the patterns find on a listing page: the novel name and the author if a pattern
  matched (after the source's trimming), the regions matched by the patterns on the
  body-text keyword and by the container patterns (each in the order of the patterns),
  the link-dense \<^verbatim>\<open>div\<close> chunks that pass the two thresholds with their number of links,
  the anchors (href, text) of a region and of the whole page, the latter with tags
  removed from the text, and the anchors whose text holds the words for chapter one.
\<close>

record index_page =
  name_match :: "ustring option"
  author_match :: "ustring option"
  text_content_matches :: "ustring list"
  content_sections :: "ustring list"
  link_clusters :: "(ustring \<times> nat) list"
  region_links :: "ustring \<Rightarrow> (ustring \<times> ustring) list"
  all_page_links :: "(ustring \<times> ustring) list"
  first_chapter_matches :: "(ustring \<times> ustring) list"

text \<open>The world outside: a fetch that raises is \<open>None\<close>.\<close>

record env =
  fetch_chapter :: "ustring \<Rightarrow> chapter_page option"
  fetch_index :: "ustring \<Rightarrow> index_page option"
  fetch_probe :: "ustring \<Rightarrow> probe_page option"
  urljoin :: "ustring \<Rightarrow> ustring \<Rightarrow> ustring"
  clean_content :: "ustring \<Rightarrow> ustring"

text \<open>The record that \<^verbatim>\<open>crawl_chapter\<close> returns; title and location are always set.\<close>

record chapter_data = chapter_dict +
  content :: ustring
  prev_url :: ustring
  next_url :: ustring
  index_url :: ustring
  novel_name :: ustring
  category :: ustring
  author :: ustring

text \<open>Unknown novel, unknown author, unknown category.\<close>

abbreviation (input) unknown_novel :: ustring where
  "unknown_novel \<equiv> [0x672A, 0x77E5, 0x5C0F, 0x8BF4]"
abbreviation (input) unknown_author :: ustring where
  "unknown_author \<equiv> [0x672A, 0x77E5, 0x4F5C, 0x8005]"
abbreviation (input) unknown_category :: ustring where
  "unknown_category \<equiv> [0x672A, 0x77E5, 0x5206, 0x7C7B]"

text \<open>\<^verbatim>\<open>a or b\<close> where \<open>a\<close> is \<^verbatim>\<open>None\<close> or a string: the empty string is false.\<close>

definition or_else :: "ustring option \<Rightarrow> ustring \<Rightarrow> ustring" where
  "or_else a b = (case a of None \<Rightarrow> b | Some s \<Rightarrow> if s = [] then b else s)"

text \<open>\<^verbatim>\<open>os.path.basename\<close>: what follows the last slash.\<close>

definition basename :: "ustring \<Rightarrow> ustring" where
  "basename u = rev (takeWhile (\<lambda>c. c \<noteq> slash) (rev u))"

definition joined :: "env \<Rightarrow> ustring \<Rightarrow> ustring option \<Rightarrow> ustring" where
  "joined e base h = (case h of None \<Rightarrow> [] | Some r \<Rightarrow> urljoin e base r)"

text \<open>The body text: from the parser, and from the patterns if the parser gave none.\<close>

definition extracted_content :: "chapter_page \<Rightarrow> ustring" where
  "extracted_content pg =
     (let c = (case soup_content pg of None \<Rightarrow> [] | Some t \<Rightarrow> t)
      in if c = [] then (case regex_content pg of None \<Rightarrow> [] | Some g \<Rightarrow> g) else c)"

text \<open>
  The whole body of \<^verbatim>\<open>crawl_chapter\<close> sits in a \<^verbatim>\<open>try\<close> whose handler returns
  \<^verbatim>\<open>None\<close>, so the function has no exceptional result.
\<close>

definition crawl_chapter ::
    "env \<Rightarrow> ustring \<Rightarrow> ustring option \<Rightarrow> ustring option \<Rightarrow> chapter_data option" where
  "crawl_chapter e chapter_url nn au =
     (case fetch_chapter e chapter_url of
        None \<Rightarrow> None
      | Some pg \<Rightarrow>
          (let c = extracted_content pg
           in if c = [] \<or> length (strip c) < 20 then None
              else Some
                \<lparr>title = Some (case title_match pg of
                                 None \<Rightarrow> basename chapter_url
                               | Some t \<Rightarrow> strip t),
                 url = Some chapter_url,
                 content = clean_content e c,
                 prev_url = joined e chapter_url (prev_href pg),
                 next_url = joined e chapter_url (next_href pg),
                 index_url = joined e chapter_url (index_href pg),
                 novel_name =
                   or_else nn (or_else (map_option strip (meta_novel_name pg)) unknown_novel),
                 category = (case meta_category pg of None \<Rightarrow> unknown_category | Some g \<Rightarrow> g),
                 author =
                   or_else au (or_else (map_option strip (meta_author pg)) unknown_author)\<rparr>))"


section \<open>Linked-list mode: the loop of \<^verbatim>\<open>crawl_multiple_chapters\<close>\<close>

datatype py_error = KeyError | NameError

record walk_state =
  count :: nat
  current_url :: ustring
  chapters_data :: "chapter_data list"
  crawled_urls :: "ustring set"
  walk_novel_name :: "ustring option"
  walk_author :: "ustring option"
  saved :: "(chapter_data list \<times> ustring) option"

text \<open>
  \<^verbatim>\<open>next((chapter['next_url'] for chapter in chapters_data if chapter['url'] == current_url), None)\<close>
\<close>

fun stored_next :: "chapter_data list \<Rightarrow> ustring \<Rightarrow> py_error + ustring option" where
  "stored_next [] u = Inr None"
| "stored_next (c # cs) u =
     (case url c of
        None \<Rightarrow> Inl KeyError
      | Some v \<Rightarrow> if v = u then Inr (Some (next_url c)) else stored_next cs u)"

datatype step = Continue walk_state | Break walk_state | Raise py_error

text \<open>
  One pass through the body of the \<^verbatim>\<open>while\<close> loop. The pause between two fetches and
  the writes of the storage sink (the chapter file, and the keys it adds to a record)
  have no effect on the walk and are left out; \<open>saved\<close> is the progress snapshot
  written after every third chapter.
\<close>

definition loop_body :: "env \<Rightarrow> walk_state \<Rightarrow> step" where
  "loop_body e s =
     (if current_url s \<in> crawled_urls s then
        (case stored_next (chapters_data s) (current_url s) of
           Inl err \<Rightarrow> Raise err
         | Inr None \<Rightarrow> Break s
         | Inr (Some n) \<Rightarrow>
             if n \<noteq> [] \<and> n \<noteq> current_url s then Continue (s\<lparr>current_url := n\<rparr>)
             else Break s)
      else
        (case crawl_chapter e (current_url s) (walk_novel_name s) (walk_author s) of
           None \<Rightarrow> Break s
         | Some cd \<Rightarrow>
             (let first = (or_else (walk_novel_name s) [] = []);
                  s1 = s\<lparr>walk_novel_name :=
                           (if first then Some (novel_name cd) else walk_novel_name s),
                         walk_author := (if first then Some (author cd) else walk_author s),
                         chapters_data := chapters_data s @ [cd],
                         crawled_urls := insert (current_url s) (crawled_urls s),
                         count := count s + 1\<rparr>;
                  s2 = (if count s1 mod 3 = 0
                        then s1\<lparr>saved := Some (chapters_data s1, current_url s)\<rparr> else s1)
              in if next_url cd = [] \<or> next_url cd = current_url s then Break s2
                 else if is_directory_page (next_url cd) then Break s2
                 else Continue (s2\<lparr>current_url := next_url cd\<rparr>))))"

text \<open>
  The loop itself. The counter grows only when a chapter is fetched, so nothing bounds
  the number of passes; a walk that never leaves the loop has the value \<open>None\<close>.
\<close>

partial_function (option) walk_loop ::
    "env \<Rightarrow> nat \<Rightarrow> walk_state \<Rightarrow> (py_error + walk_state) option" where
  "walk_loop e chapters_to_crawl s =
     (if count s < chapters_to_crawl then
        (case loop_body e s of
           Continue s' \<Rightarrow> walk_loop e chapters_to_crawl s'
         | Break s' \<Rightarrow> Some (Inr s')
         | Raise err \<Rightarrow> Some (Inl err))
      else Some (Inr s))"

text \<open>
  The walk from an entry location without a progress file: \<open>num_chapters\<close> is the
  requested budget, and 0 (or less) stands for 999 chapters.
\<close>

definition linked_list_walk :: "env \<Rightarrow> ustring \<Rightarrow> int \<Rightarrow> (py_error + walk_state) option" where
  "linked_list_walk e u num_chapters =
     walk_loop e (if num_chapters > 0 then nat num_chapters else 999)
       \<lparr>count = 0, current_url = u, chapters_data = [], crawled_urls = {},
        walk_novel_name = None, walk_author = None, saved = None\<rparr>"

section \<open>The chapter index resolver: \<^verbatim>\<open>crawl_index_page\<close>\<close>













record novel_info =
  info_novel_name :: ustring
  info_author :: ustring
  chapters :: "chapter_dict list"


subsection \<open>The caller: entry by a listing page\<close>




section \<open>Sample pages and sites\<close>

text \<open>A link text with a chapter marker and the word for logging in.\<close>

definition ex_login_title :: ustring where
  "ex_login_title = [di, 0x31, zhang, 0x20, 0x767B, 0x5F55]"

text \<open>
  Three chapter pages whose next-references form the cycle A, B, C, A. Every page has a
  body of more than 20 characters; the references are absolute, so joining them to the
  location of the page leaves them as they are, and cleaning the plain body changes
  nothing.
\<close>

definition url_a :: ustring where "url_a = ascii ''http://x/book/1.html''"
definition url_b :: ustring where "url_b = ascii ''http://x/book/2.html''"
definition url_c :: ustring where "url_c = ascii ''http://x/book/3.html''"
definition url_listing :: ustring where "url_listing = ascii ''http://x/book/''"

definition ex_body :: ustring where
  "ex_body = ascii ''It was a dark and stormy night.''"

definition ex_page :: "ustring \<Rightarrow> ustring \<Rightarrow> chapter_page" where
  "ex_page body n =
     \<lparr>soup_content = Some body, regex_content = None, title_match = None, prev_href = None,
      next_href = Some n, index_href = None, meta_novel_name = None, meta_author = None,
      meta_category = None\<rparr>"

definition ex_site :: "(ustring \<Rightarrow> chapter_page option) \<Rightarrow> env" where
  "ex_site pages =
     \<lparr>fetch_chapter = pages, fetch_index = (\<lambda>u. None), fetch_probe = (\<lambda>u. None),
      urljoin = (\<lambda>base h. h), clean_content = (\<lambda>c. c)\<rparr>"

definition ex_cycle_env :: env where
  "ex_cycle_env =
     ex_site (\<lambda>u. if u = url_a then Some (ex_page ex_body url_b)
                  else if u = url_b then Some (ex_page ex_body url_c)
                  else if u = url_c then Some (ex_page ex_body url_a)
                  else None)"

text \<open>The record of a sample page, and the state of the walk after the three pages.\<close>

definition ex_record :: "ustring \<Rightarrow> ustring \<Rightarrow> ustring \<Rightarrow> chapter_data" where
  "ex_record u name n =
     \<lparr>title = Some name, url = Some u, content = ex_body, prev_url = [], next_url = n,
      index_url = [], novel_name = unknown_novel, category = unknown_category,
      author = unknown_author\<rparr>"

definition ex_cycle_records :: "chapter_data list" where
  "ex_cycle_records =
     [ex_record url_a (ascii ''1.html'') url_b, ex_record url_b (ascii ''2.html'') url_c,
      ex_record url_c (ascii ''3.html'') url_a]"

definition ex_cycle_state :: "ustring \<Rightarrow> walk_state" where
  "ex_cycle_state u =
     \<lparr>count = 3, current_url = u, chapters_data = ex_cycle_records,
      crawled_urls = {url_c, url_b, url_a}, walk_novel_name = Some unknown_novel,
      walk_author = Some unknown_author, saved = Some (ex_cycle_records, url_c)\<rparr>"

definition ex_state_after_a :: walk_state where
  "ex_state_after_a =
     \<lparr>count = 1, current_url = url_b,
      chapters_data = [ex_record url_a (ascii ''1.html'') url_b],
      crawled_urls = {url_a}, walk_novel_name = Some unknown_novel,
      walk_author = Some unknown_author, saved = None\<rparr>"

definition ex_state_after_b :: walk_state where
  "ex_state_after_b =
     \<lparr>count = 2, current_url = url_c,
      chapters_data = [ex_record url_a (ascii ''1.html'') url_b,
        ex_record url_b (ascii ''2.html'') url_c],
      crawled_urls = {url_b, url_a}, walk_novel_name = Some unknown_novel,
      walk_author = Some unknown_author, saved = None\<rparr>"


definition ex_last_env :: env where
  "ex_last_env =
     ex_site (\<lambda>u. if u = url_a then Some (ex_page ex_body url_listing) else None)"

definition ex_fresh_state :: "ustring \<Rightarrow> walk_state" where
  "ex_fresh_state u =
     \<lparr>count = 0, current_url = u, chapters_data = [], crawled_urls = {},
      walk_novel_name = None, walk_author = None, saved = None\<rparr>"






section \<open>Evaluation rules\<close>

text \<open>
  The character classes on the ranges that the examples use: below the second block of
  digits, in the gap of the table that holds the CJK ideographs, and on the full-width
  digits.
\<close>

lemma digit_value_low:
  "c < 1632 \<Longrightarrow> digit_value c = (if 48 \<le> c \<and> c < 58 then Some (c - 48) else None)"
  by (simp add: digit_value_def nd_starts_def)

lemma digit_value_gap: "7258 \<le> c \<Longrightarrow> c < 42528 \<Longrightarrow> digit_value c = None"
  by (simp add: digit_value_def nd_starts_def)

lemma digit_value_fullwidth:
  "65296 \<le> c \<Longrightarrow> c < 65306 \<Longrightarrow> digit_value c = Some (c - 65296)"
  by (simp add: digit_value_def nd_starts_def)

lemma is_digit_low: "c < 1632 \<Longrightarrow> is_digit c = (48 \<le> c \<and> c < 58)"
  by (simp add: is_digit_def digit_value_low)

lemma is_digit_gap: "7258 \<le> c \<Longrightarrow> c < 42528 \<Longrightarrow> is_digit c = False"
  by (simp add: is_digit_def digit_value_gap)

lemma is_space_iff:
  "is_space c = (c \<in> {9, 10, 11, 12, 13, 28, 29, 30, 31, 32, 133, 160, 5760, 8192, 8193,
     8194, 8195, 8196, 8197, 8198, 8199, 8200, 8201, 8202, 8232, 8233, 8239, 8287, 12288})"
  by (simp add: is_space_def whitespace_def)

lemmas char_eval = digit_value_low digit_value_gap digit_value_fullwidth is_digit_low
  is_digit_gap is_space_iff ascii_def endswith_def dot_html_def numeral_char_def
  ch_num_map_def lead_class_def is_sep_def

lemmas info_eval = make_info_def get_title_def get_url_def strip_def url_number_def
  search_num_html_def num_html_at_end_def extract_chapter_number_def search_leading_num_def
  num_sep_at_def py_int_def sequence_of_def priority_of_def is_preface_def when_small_def
  or_absent_def absent_key_def Let_def

section \<open>The ordering is a stable sort on the key without the position\<close>

lemma sort_tuple_make_info:
  "sort_tuple (make_info i c) =
     (fst (chapter_key c), fst (snd (chapter_key c)), fst (snd (snd (chapter_key c))),
      snd (snd (snd (chapter_key c))), i)"
  by (simp add: sort_tuple_def chapter_key_def make_info_def Let_def)

lemma sort_tuple_le_iff:
  assumes "i \<le> j"
  shows "(sort_tuple (make_info i c) \<le> sort_tuple (make_info j d)) = (chapter_key c \<le> chapter_key d)"
proof -
  obtain a1 a2 a3 a4 where c: "chapter_key c = (a1, a2, a3, a4)" by (cases "chapter_key c") auto
  obtain b1 b2 b3 b4 where d: "chapter_key d = (b1, b2, b3, b4)" by (cases "chapter_key d") auto
  from assms show ?thesis
    by (auto simp add: sort_tuple_make_info c d less_eq_prod_def less_prod_def)
qed

lemma original_make_info [simp]: "original (make_info i c) = c"
  by (simp add: make_info_def Let_def)

lemma infos_from_elem:
  "x \<in> set (infos_from i cs) \<Longrightarrow> \<exists>j c. x = make_info j c \<and> i \<le> j"
proof (induction cs arbitrary: i)
  case Nil
  then show ?case by simp
next
  case (Cons a cs)
  then show ?case
  proof (cases "x = make_info i a")
    case True
    then show ?thesis by blast
  next
    case False
    with Cons.prems have "x \<in> set (infos_from (Suc i) cs)" by simp
    from Cons.IH [OF this] obtain j c where "x = make_info j c" "Suc i \<le> j" by blast
    then have "x = make_info j c \<and> i \<le> j" by simp
    then show ?thesis by blast
  qed
qed

lemma map_insort_key_agree:
  assumes "\<And>y. y \<in> set ys \<Longrightarrow> (k x \<le> k y) = (f (h x) \<le> f (h y))"
  shows "map h (insort_key k x ys) = insort_key f (h x) (map h ys)"
  using assms by (induction ys) simp_all

lemma sort_infos_from:
  "map original (sort_key sort_tuple (infos_from i cs)) = sort_key chapter_key cs"
proof (induction cs arbitrary: i)
  case Nil
  show ?case by simp
next
  case (Cons c cs)
  have agree: "(sort_tuple (make_info i c) \<le> sort_tuple y)
      = (chapter_key (original (make_info i c)) \<le> chapter_key (original y))"
    if "y \<in> set (sort_key sort_tuple (infos_from (Suc i) cs))" for y
  proof -
    from that have "y \<in> set (infos_from (Suc i) cs)" by simp
    from infos_from_elem [OF this] obtain j d where y: "y = make_info j d" and "Suc i \<le> j"
      by blast
    then have "i \<le> j" by simp
    then show ?thesis by (simp add: y sort_tuple_le_iff)
  qed
  have "map original (sort_key sort_tuple (infos_from i (c # cs)))
      = map original (insort_key sort_tuple (make_info i c)
          (sort_key sort_tuple (infos_from (Suc i) cs)))"
    by simp
  also have "\<dots> = insort_key chapter_key (original (make_info i c))
      (map original (sort_key sort_tuple (infos_from (Suc i) cs)))"
    by (rule map_insort_key_agree) (rule agree)
  also have "\<dots> = insort_key chapter_key c (sort_key chapter_key cs)"
    by (simp add: Cons.IH)
  finally show ?case by simp
qed

lemma process_and_sort_chapters_stable_sort:
  "process_and_sort_chapters cs = sort_key chapter_key cs"
  by (cases "cs = []") (simp_all add: process_and_sort_chapters_def sort_infos_from)

lemma process_and_sort_chapters_sorted:
  "sorted (map chapter_key (process_and_sort_chapters cs))"
  by (simp add: process_and_sort_chapters_stable_sort)

subsection \<open>The keys of the sample candidates\<close>

lemma key_ex_chapter_one: "chapter_key ex_chapter_one = (1000000, 1, - 299, 1)"
  by (simp add: chapter_key_def ex_chapter_one_def info_eval char_eval)

lemma key_ex_afterword: "chapter_key ex_afterword = (999999, 999999, 0, 0)"
  by (simp add: chapter_key_def ex_afterword_def info_eval char_eval)

lemma key_ex_extra: "chapter_key ex_extra = (999999, 999999, 0, 0)"
  by (simp add: chapter_key_def ex_extra_def info_eval char_eval)

lemma key_ex_intro5: "chapter_key ex_intro5 = (5, 999999, - 695, 0)"
  by (simp add: chapter_key_def ex_intro5_def info_eval char_eval)

lemma key_ex_first3: "chapter_key ex_first3 = (3, 1, - 800, 1)"
  by (simp add: chapter_key_def ex_first3_def info_eval char_eval)

lemma ex_intro5_neq_first3: "ex_intro5 \<noteq> ex_first3"
  by (simp add: ex_intro5_def ex_first3_def ascii_def)


text \<open>
  The example of numeric dominance: the candidate at page 3 comes before the one at
  page 5, whatever the titles say.
\<close>

lemma numeric_dominance_example:
  "process_and_sort_chapters [ex_intro5, ex_first3] = [ex_first3, ex_intro5]"
  by (simp add: process_and_sort_chapters_stable_sort key_ex_intro5 key_ex_first3
      less_eq_prod_def)

section \<open>Claims on the ordering engine\<close>

text \<open>
  C10. For every input sequence the output of \<open>process_and_sort_chapters\<close> is a
  permutation of the input: the same multiset of candidates and the same length. No
  candidate is dropped, duplicated or changed.
\<close>

theorem order_is_permutation:
  "mset (process_and_sort_chapters cs) = mset cs
   \<and> length (process_and_sort_chapters cs) = length cs"
  by (simp add: process_and_sort_chapters_stable_sort)

theorem order_is_permutation_witness:
  "mset (process_and_sort_chapters [ex_intro5, ex_first3]) = mset [ex_intro5, ex_first3]
   \<and> length (process_and_sort_chapters [ex_intro5, ex_first3]) = length [ex_intro5, ex_first3]"
  by (rule order_is_permutation)

text \<open>
  C3. The ordering is idempotent: ordering an ordered sequence again changes nothing.
\<close>

theorem order_idempotent:
  "process_and_sort_chapters (process_and_sort_chapters cs) = process_and_sort_chapters cs"
  by (simp add: process_and_sort_chapters_stable_sort sort_key_id_if_sorted)

theorem order_idempotent_witness:
  "process_and_sort_chapters (process_and_sort_chapters [ex_intro5, ex_first3])
     = process_and_sort_chapters [ex_intro5, ex_first3]"
  by (rule order_idempotent)




text \<open>
  C1: the candidates are sorted by location ordinal, title ordinal, negated priority,
  special sequence and position, an absent ordinal sorting as plus infinity. The source
  puts 999999 in the place of an absent ordinal. A first chapter on page 1000000 is
  therefore sorted behind an afterword whose location carries no number, where the
  stated key puts it in front.
\<close>

theorem order_absent_ordinal_before_large_ordinal:
  "process_and_sort_chapters [ex_chapter_one, ex_afterword] = [ex_afterword, ex_chapter_one]
   \<and> spec_order [ex_chapter_one, ex_afterword] = [ex_chapter_one, ex_afterword]"
proof -
  have 1: "process_and_sort_chapters [ex_chapter_one, ex_afterword]
      = [ex_afterword, ex_chapter_one]"
    by (simp add: process_and_sort_chapters_def sort_tuple_def ex_chapter_one_def
        ex_afterword_def info_eval char_eval less_eq_prod_def)
  have 2: "spec_order [ex_chapter_one, ex_afterword] = [ex_chapter_one, ex_afterword]"
    by (simp add: spec_order_def spec_sort_tuple_def spec_ordinal_def ex_chapter_one_def
        ex_afterword_def info_eval char_eval less_eq_prod_def)
  show ?thesis
    by (simp add: 1 2)
qed

section \<open>Claims on titles and links\<close>

subsection \<open>Substrings and stripping\<close>

lemma contains_iff: "contains w t = (\<exists>p s. t = p @ w @ s)"
proof (induction t)
  case Nil
  show ?case by auto
next
  case (Cons c cs)
  have "(\<exists>p s. c # cs = p @ w @ s) = (prefix w (c # cs) \<or> (\<exists>p s. cs = p @ w @ s))"
  proof
    assume "\<exists>p s. c # cs = p @ w @ s"
    then obtain p s where eq: "c # cs = p @ w @ s" by blast
    show "prefix w (c # cs) \<or> (\<exists>p s. cs = p @ w @ s)"
    proof (cases p)
      case Nil
      with eq show ?thesis by (auto simp add: prefix_def)
    next
      case (Cons a p')
      with eq have "cs = p' @ w @ s" by simp
      then show ?thesis by blast
    qed
  next
    assume "prefix w (c # cs) \<or> (\<exists>p s. cs = p @ w @ s)"
    then show "\<exists>p s. c # cs = p @ w @ s"
    proof
      assume "prefix w (c # cs)"
      then obtain s where "c # cs = w @ s" by (auto simp add: prefix_def)
      then have "c # cs = [] @ w @ s" by simp
      then show ?thesis by blast
    next
      assume "\<exists>p s. cs = p @ w @ s"
      then obtain p s where "cs = p @ w @ s" by blast
      then have "c # cs = (c # p) @ w @ s" by simp
      then show ?thesis by blast
    qed
  qed
  with Cons.IH show ?case by simp
qed

lemma dropWhile_keeps_block:
  assumes "w \<noteq> []" and "\<not> P (hd w)"
  shows "\<exists>p'. dropWhile P (p @ w @ s) = p' @ w @ s"
proof (induction p)
  case Nil
  from assms obtain a w' where w: "w = a # w'" by (cases w) auto
  with assms have "dropWhile P ([] @ w @ s) = [] @ w @ s" by simp
  then show ?case by blast
next
  case (Cons a p)
  show ?case
  proof (cases "P a")
    case True
    with Cons.IH show ?thesis by simp
  next
    case False
    then have "dropWhile P ((a # p) @ w @ s) = (a # p) @ w @ s" by simp
    then show ?thesis by blast
  qed
qed

lemma contains_strip:
  assumes "contains w t" and "w \<noteq> []" and "\<not> is_space (hd w)" and "\<not> is_space (last w)"
  shows "contains w (strip t)"
proof -
  from assms(1) obtain p s where t: "t = p @ w @ s" by (auto simp add: contains_iff)
  from dropWhile_keeps_block [where P = is_space and w = w and p = p and s = s] assms(2,3)
  obtain p' where 1: "dropWhile is_space (p @ w @ s) = p' @ w @ s" by blast
  have "rev w \<noteq> []" using assms(2) by simp
  moreover have "\<not> is_space (hd (rev w))" using assms(2,4) by (simp add: hd_rev)
  ultimately obtain q where
    2: "dropWhile is_space (rev s @ rev w @ rev p') = q @ rev w @ rev p'"
    using dropWhile_keeps_block [where P = is_space and w = "rev w" and p = "rev s" and s = "rev p'"]
    by blast
  have "strip t = p' @ w @ rev q"
    by (simp add: strip_def t 1 2)
  then show ?thesis by (auto simp add: contains_iff)
qed

subsection \<open>The pattern for a numeric page\<close>

lemma length_dot_html: "length dot_html = 5"
  by (simp add: dot_html_def ascii_def)

lemma not_digit_slash: "\<not> is_digit slash"
  by (simp add: is_digit_low)

lemma num_html_at_end_iff:
  "(num_html_at_end u = Some ds)
     = (\<exists>p. u = p @ [slash] @ ds @ dot_html \<and> ds \<noteq> [] \<and> list_all is_digit ds)"
proof
  assume a: "num_html_at_end u = Some ds"
  define r where "r = drop (length dot_html) (rev u)"
  from a have e: "endswith u dot_html"
    by (auto simp add: num_html_at_end_def split: if_splits)
  then have "rev u = rev dot_html @ r"
    by (auto simp add: endswith_def prefix_def r_def)
  then have u: "u = rev r @ dot_html"
    by (metis rev_append rev_rev_ident)
  from a e obtain c rest where dw: "dropWhile is_digit r = c # rest"
    and c: "c = slash" and ds: "ds = rev (takeWhile is_digit r)" and ne: "ds \<noteq> []"
    by (auto simp add: num_html_at_end_def Let_def r_def split: if_splits list.splits)
  have "r = takeWhile is_digit r @ dropWhile is_digit r" by simp
  then have "r = rev ds @ slash # rest" using dw c ds by simp
  then have "rev r = rev rest @ [slash] @ ds" by simp
  with u have "u = rev rest @ [slash] @ ds @ dot_html" by simp
  moreover have "list_all is_digit ds"
    using ds by (auto simp add: list_all_iff dest: set_takeWhileD)
  ultimately show "\<exists>p. u = p @ [slash] @ ds @ dot_html \<and> ds \<noteq> [] \<and> list_all is_digit ds"
    using ne by blast
next
  assume "\<exists>p. u = p @ [slash] @ ds @ dot_html \<and> ds \<noteq> [] \<and> list_all is_digit ds"
  then obtain p where u: "u = p @ [slash] @ ds @ dot_html" and ne: "ds \<noteq> []"
    and dig: "list_all is_digit ds" by blast
  have ru: "rev u = rev dot_html @ rev ds @ slash # rev p" by (simp add: u)
  have e: "endswith u dot_html" by (simp add: endswith_def ru)
  have d: "drop (length dot_html) (rev u) = rev ds @ slash # rev p" by (simp add: ru)
  have all: "\<forall>x\<in>set (rev ds). is_digit x" using dig by (simp add: list_all_iff)
  have "takeWhile is_digit (rev ds @ slash # rev p)
      = rev ds @ takeWhile is_digit (slash # rev p)"
    by (rule takeWhile_append2) (use all in blast)
  then have tw: "takeWhile is_digit (rev ds @ slash # rev p) = rev ds"
    by (simp add: not_digit_slash)
  have "dropWhile is_digit (rev ds @ slash # rev p) = dropWhile is_digit (slash # rev p)"
    by (rule dropWhile_append2) (use all in blast)
  then have dw: "dropWhile is_digit (rev ds @ slash # rev p) = slash # rev p"
    by (simp add: not_digit_slash)
  show "num_html_at_end u = Some ds"
    using ne by (simp add: num_html_at_end_def e d tw dw Let_def)
qed

text \<open>
  What the pattern for a numeric page matches, said without the matching procedure: the
  string ends, up to one final newline, in a slash, a run of digits and the suffix.
\<close>

lemma search_num_html_iff:
  "(search_num_html s = Some ds)
     = (\<exists>p. (s = p @ [slash] @ ds @ dot_html \<or> s = p @ [slash] @ ds @ dot_html @ [newline])
          \<and> ds \<noteq> [] \<and> list_all is_digit ds)"
proof (cases "num_html_at_end s")
  case (Some d)
  then obtain q where s: "s = q @ [slash] @ d @ dot_html"
    by (auto simp add: num_html_at_end_iff)
  have no_nl: "s \<noteq> p @ [slash] @ ds @ dot_html @ [newline]" for p
  proof
    assume "s = p @ [slash] @ ds @ dot_html @ [newline]"
    then have "last s = newline" by simp
    moreover from s have "last s = 108" by (simp add: dot_html_def ascii_def)
    ultimately show False by simp
  qed
  have "(search_num_html s = Some ds) = (num_html_at_end s = Some ds)"
    by (simp add: search_num_html_def Some)
  also have "\<dots> = (\<exists>p. s = p @ [slash] @ ds @ dot_html \<and> ds \<noteq> [] \<and> list_all is_digit ds)"
    by (rule num_html_at_end_iff)
  finally show ?thesis using no_nl by blast
next
  case None
  have no_end: "\<not> (\<exists>p. s = p @ [slash] @ ds @ dot_html \<and> ds \<noteq> [] \<and> list_all is_digit ds)"
    using None num_html_at_end_iff [of s ds] by simp
  show ?thesis
  proof (cases "s \<noteq> [] \<and> last s = newline")
    case True
    then have sb: "s = butlast s @ [newline]" by (metis append_butlast_last_id)
    have "(search_num_html s = Some ds) = (num_html_at_end (butlast s) = Some ds)"
      using True by (simp add: search_num_html_def None)
    also have "\<dots> = (\<exists>p. butlast s = p @ [slash] @ ds @ dot_html \<and> ds \<noteq> []
        \<and> list_all is_digit ds)"
      by (rule num_html_at_end_iff)
    also have "\<dots> = (\<exists>p. s = p @ [slash] @ ds @ dot_html @ [newline] \<and> ds \<noteq> []
        \<and> list_all is_digit ds)"
    proof -
      have "(butlast s = p @ [slash] @ ds @ dot_html)
          = (s = p @ [slash] @ ds @ dot_html @ [newline])" for p
      proof
        assume "butlast s = p @ [slash] @ ds @ dot_html"
        with sb show "s = p @ [slash] @ ds @ dot_html @ [newline]" by simp
      next
        assume "s = p @ [slash] @ ds @ dot_html @ [newline]"
        then have "s = (p @ [slash] @ ds @ dot_html) @ [newline]" by simp
        then have "butlast s = p @ [slash] @ ds @ dot_html" by (simp only: butlast_snoc)
        then show "butlast s = p @ [slash] @ ds @ dot_html" .
      qed
      then show ?thesis by simp
    qed
    finally show ?thesis using no_end by blast
  next
    case False
    have "s \<noteq> p @ [slash] @ ds @ dot_html @ [newline]" for p
    proof
      assume "s = p @ [slash] @ ds @ dot_html @ [newline]"
      then have "s \<noteq> [] \<and> last s = newline" by simp
      with False show False by simp
    qed
    moreover have "search_num_html s = None"
      using False by (auto simp add: search_num_html_def None)
    ultimately show ?thesis using no_end by auto
  qed
qed

lemma endswith_iff: "endswith s w = (\<exists>p. s = p @ w)"
proof
  assume "endswith s w"
  then obtain z where "rev s = rev w @ z" by (auto simp add: endswith_def prefix_def)
  then have "s = rev z @ w" by (metis rev_append rev_rev_ident)
  then show "\<exists>p. s = p @ w" by blast
next
  assume "\<exists>p. s = p @ w"
  then show "endswith s w" by (auto simp add: endswith_def)
qed

lemma is_directory_page_iff:
  "(\<not> is_directory_page u)
     = (\<exists>p ds. u = p @ [slash] @ ds @ dot_html \<and> ds \<noteq> [] \<and> list_all is_digit ds)"
proof
  assume a: "\<not> is_directory_page u"
  then have e: "endswith u dot_html" and s: "search_num_html u \<noteq> None"
    by (auto simp add: is_directory_page_def split: if_splits)
  from e obtain q where "u = q @ dot_html" by (auto simp add: endswith_iff)
  then have "u \<noteq> [] \<and> last u \<noteq> newline" by (simp add: dot_html_def ascii_def)
  with s obtain ds where "num_html_at_end u = Some ds"
    by (auto simp add: search_num_html_def split: option.splits)
  then show "\<exists>p ds. u = p @ [slash] @ ds @ dot_html \<and> ds \<noteq> [] \<and> list_all is_digit ds"
    by (auto simp add: num_html_at_end_iff)
next
  assume "\<exists>p ds. u = p @ [slash] @ ds @ dot_html \<and> ds \<noteq> [] \<and> list_all is_digit ds"
  then obtain p ds where u: "u = p @ [slash] @ ds @ dot_html" and ne: "ds \<noteq> []"
    and dig: "list_all is_digit ds" by blast
  then have n: "num_html_at_end u = Some ds" by (auto simp add: num_html_at_end_iff)
  have e: "endswith u dot_html" by (auto simp add: endswith_iff u)
  have "\<not> endswith u [slash]" by (simp add: endswith_def u dot_html_def ascii_def)
  with n e show "\<not> is_directory_page u"
    by (simp add: is_directory_page_def search_num_html_def)
qed

subsection \<open>The link classifier\<close>

lemma blocklist_word_strip:
  assumes "w \<in> {[0x767B, 0x5F55], [0x6CE8, 0x518C], [0x9996, 0x9875], [0x8BBE, 0x7F6E],
      [0x5E2E, 0x52A9]}"
  shows "w \<in> set blocklist \<and> w \<noteq> [] \<and> \<not> is_space (hd w) \<and> \<not> is_space (last w)"
  using assms by (auto simp add: blocklist_def is_space_iff)

text \<open>
  C6. The rules of the classifier are tried in order and the blocklist comes first: a
  link whose visible text contains one of the navigational words (log in U+767B U+5F55,
  register U+6CE8 U+518C, home page U+9996 U+9875, settings U+8BBE U+7F6E, help U+5E2E
  U+52A9) is not a chapter, whatever else the text and the target reference match. The
  witness is a text with a chapter marker and a target with a numeric path.
\<close>

theorem blocklisted_text_is_rejected:
  assumes "w \<in> {[0x767B, 0x5F55], [0x6CE8, 0x518C], [0x9996, 0x9875], [0x8BBE, 0x7F6E],
      [0x5E2E, 0x52A9]}"
    and "contains w t"
  shows "is_likely_chapter_link t href = (False, NonChapterKeyword)"
proof -
  from blocklist_word_strip [OF assms(1)] assms(2) have "contains w (strip t)"
    by (simp add: contains_strip)
  moreover from blocklist_word_strip [OF assms(1)] have "w \<in> set blocklist" by simp
  ultimately have "list_ex (\<lambda>x. contains x (strip t)) blocklist"
    by (auto simp add: list_ex_iff)
  then show ?thesis by (simp add: is_likely_chapter_link_def)
qed

theorem blocklisted_text_is_rejected_witness:
  "[0x767B, 0x5F55] \<in> {[0x767B, 0x5F55], [0x6CE8, 0x518C], [0x9996, 0x9875], [0x8BBE, 0x7F6E],
      [0x5E2E, 0x52A9 :: nat]}
   \<and> contains [0x767B, 0x5F55] ex_login_title
   \<and> search_ordinal_marker (strip ex_login_title)
   \<and> search_num_html (ascii ''http://x/book/1.html'') \<noteq> None
   \<and> is_likely_chapter_link ex_login_title (ascii ''http://x/book/1.html'')
       = (False, NonChapterKeyword)"
proof -
  have m: "[0x767B, 0x5F55] \<in> {[0x767B, 0x5F55], [0x6CE8, 0x518C], [0x9996, 0x9875],
      [0x8BBE, 0x7F6E], [0x5E2E, 0x52A9 :: nat]}"
    by simp
  have c: "contains [0x767B, 0x5F55] ex_login_title"
    by (simp add: ex_login_title_def)
  have o: "search_ordinal_marker (strip ex_login_title)"
    by (simp add: ex_login_title_def strip_def is_space_iff is_marker_def)
  have n: "search_num_html (ascii ''http://x/book/1.html'') \<noteq> None"
    by (simp add: search_num_html_def num_html_at_end_def char_eval Let_def)
  from blocklisted_text_is_rejected [OF m c] m c o n show ?thesis
    by blast
qed

subsection \<open>Title ordinals\<close>

lemma extract_chapter_number_examples:
  "extract_chapter_number ([di] @ ascii ''12'' @ [zhang]) = Some 12"
  "extract_chapter_number [di, 0x4E03, zhang] = Some 7"
  "extract_chapter_number [di, shi, 0x4E00, zhang] = Some 11"
  "extract_chapter_number [di, 0x4E8C, shi, zhang] = Some 999"
  "extract_chapter_number (ascii ''12'' @ [zhang]) = Some 12"
  "extract_chapter_number (ascii ''Intro'') = None"
  by (simp_all add: extract_chapter_number_def search_leading_num_def num_sep_at_def py_int_def
      char_eval)

text \<open>
  C7: the title ordinal is exact for Arabic numerals, for single CJK numerals and for
  ten plus digit, and is 999 for every more complex CJK numeral in a chapter marker.
  The source falls short of this twice. The pattern for a leading number lets its greedy
  prefix take all digits but the last, so the title \<^verbatim>\<open>12. Title\<close> gets the ordinal 2.
  The case for ten plus digit accepts any numeral after the ten, so the marker with
  U+5341 U+4E07 (ten times ten thousand) gets 10 + 10000 and not 999.
\<close>

theorem ordinal_of_leading_number_is_last_digit:
  "extract_chapter_number (ascii ''12. Title'') = Some 2
   \<and> extract_chapter_number [di, shi, 0x4E07, zhang] = Some 10010"
  by (simp add: extract_chapter_number_def search_leading_num_def num_sep_at_def py_int_def
      char_eval)

section \<open>Claims on fetching chapters and on the linked-list walk\<close>

subsection \<open>The sample sites\<close>

lemmas url_eval = url_a_def url_b_def url_c_def url_listing_def ascii_def

lemma urls_distinct:
  "url_a \<noteq> url_b" "url_b \<noteq> url_c" "url_c \<noteq> url_a" "url_b \<noteq> url_a" "url_c \<noteq> url_b"
  "url_a \<noteq> url_c" "url_a \<noteq> []" "url_b \<noteq> []" "url_c \<noteq> []"
  by (simp_all add: url_eval)

lemma chapter_urls_not_directory:
  "\<not> is_directory_page url_a" "\<not> is_directory_page url_b" "\<not> is_directory_page url_c"
  by (simp_all add: is_directory_page_def search_num_html_def num_html_at_end_def url_eval
      endswith_def dot_html_def is_digit_low Let_def)

lemma listing_is_directory: "is_directory_page url_listing"
  by (simp add: is_directory_page_def url_eval endswith_def)

lemma ex_body_long: "\<not> length (strip ex_body) < 20" "ex_body \<noteq> []"
  by (simp_all add: ex_body_def strip_def ascii_def is_space_iff)

lemma crawl_ex_page:
  assumes "fetch_chapter e u = Some (ex_page ex_body n)"
    and "urljoin e = (\<lambda>base h. h)" and "clean_content e = (\<lambda>c. c)"
  shows "crawl_chapter e u nn au
    = Some ((ex_record u (basename u) n)
        \<lparr>novel_name := or_else nn unknown_novel, author := or_else au unknown_author\<rparr>)"
  using assms
  by (simp add: crawl_chapter_def extracted_content_def ex_page_def ex_body_long ex_record_def
      joined_def or_else_def Let_def)

lemma basenames:
  "basename url_a = ascii ''1.html''" "basename url_b = ascii ''2.html''"
  "basename url_c = ascii ''3.html''"
  by (simp_all add: basename_def url_eval)

lemma cycle_env_fields:
  "fetch_chapter ex_cycle_env url_a = Some (ex_page ex_body url_b)"
  "fetch_chapter ex_cycle_env url_b = Some (ex_page ex_body url_c)"
  "fetch_chapter ex_cycle_env url_c = Some (ex_page ex_body url_a)"
  "urljoin ex_cycle_env = (\<lambda>base h. h)" "clean_content ex_cycle_env = (\<lambda>c. c)"
  by (simp_all add: ex_cycle_env_def ex_site_def urls_distinct)

lemma crawl_cycle:
  "crawl_chapter ex_cycle_env url_a None None = Some (ex_record url_a (ascii ''1.html'') url_b)"
  "crawl_chapter ex_cycle_env url_b (Some unknown_novel) (Some unknown_author)
     = Some (ex_record url_b (ascii ''2.html'') url_c)"
  "crawl_chapter ex_cycle_env url_c (Some unknown_novel) (Some unknown_author)
     = Some (ex_record url_c (ascii ''3.html'') url_a)"
  by (simp_all add: crawl_ex_page cycle_env_fields basenames or_else_def ex_record_def)

lemma step1: "loop_body ex_cycle_env (ex_fresh_state url_a) = Continue ex_state_after_a"
  by (simp add: loop_body_def ex_fresh_state_def crawl_cycle ex_state_after_a_def ex_record_def or_else_def
      urls_distinct chapter_urls_not_directory Let_def)

lemma step2: "loop_body ex_cycle_env ex_state_after_a = Continue ex_state_after_b"
  by (simp add: loop_body_def ex_state_after_a_def ex_state_after_b_def crawl_cycle ex_record_def or_else_def
      urls_distinct chapter_urls_not_directory Let_def)

lemma step3: "loop_body ex_cycle_env ex_state_after_b = Continue (ex_cycle_state url_a)"
  by (simp add: loop_body_def ex_state_after_b_def ex_cycle_state_def ex_cycle_records_def crawl_cycle
      ex_record_def or_else_def urls_distinct chapter_urls_not_directory Let_def)

lemma spin:
  "loop_body ex_cycle_env (ex_cycle_state url_a) = Continue (ex_cycle_state url_b)"
  "loop_body ex_cycle_env (ex_cycle_state url_b) = Continue (ex_cycle_state url_c)"
  "loop_body ex_cycle_env (ex_cycle_state url_c) = Continue (ex_cycle_state url_a)"
  by (simp_all add: loop_body_def ex_cycle_state_def ex_cycle_records_def ex_record_def
      urls_distinct)

subsection \<open>The walk on a cycle\<close>

lemma count_cycle_state: "count (ex_cycle_state u) = 3"
  by (simp add: ex_cycle_state_def)

lemma count_before_cycle: "count (ex_fresh_state u) = 0" "count ex_state_after_a = 1" "count ex_state_after_b = 2"
  by (simp_all add: ex_fresh_state_def ex_state_after_a_def ex_state_after_b_def)

lemma spin_exists:
  assumes "u \<in> {url_a, url_b, url_c}"
  shows "\<exists>v. v \<in> {url_a, url_b, url_c}
    \<and> loop_body ex_cycle_env (ex_cycle_state u) = Continue (ex_cycle_state v)"
  using assms spin by auto

lemma cycle_state_no_result:
  assumes ret: "walk_loop e n s = Some r"
  shows "\<not> (e = ex_cycle_env \<and> n = 999 \<and> s \<in> ex_cycle_state ` {url_a, url_b, url_c})"
proof (rule walk_loop.raw_induct
    [where P = "\<lambda>e n s r. \<not> (e = ex_cycle_env \<and> n = 999
      \<and> s \<in> ex_cycle_state ` {url_a, url_b, url_c})", OF _ ret])
  fix f e n s r
  assume IH: "\<And>e n s r. f e n s = Some r
      \<Longrightarrow> \<not> (e = ex_cycle_env \<and> n = 999 \<and> s \<in> ex_cycle_state ` {url_a, url_b, url_c})"
    and eq: "(if count s < n then
               (case loop_body e s of
                  Continue s' \<Rightarrow> f e n s'
                | Break s' \<Rightarrow> Some (Inr s')
                | Raise err \<Rightarrow> Some (Inl err))
             else Some (Inr s)) = Some r"
  show "\<not> (e = ex_cycle_env \<and> n = 999 \<and> s \<in> ex_cycle_state ` {url_a, url_b, url_c})"
  proof
    assume a: "e = ex_cycle_env \<and> n = 999 \<and> s \<in> ex_cycle_state ` {url_a, url_b, url_c}"
    then obtain u where u: "u \<in> {url_a, url_b, url_c}" and s: "s = ex_cycle_state u"
      by blast
    from spin_exists [OF u] obtain v where v: "v \<in> {url_a, url_b, url_c}"
      and b: "loop_body ex_cycle_env (ex_cycle_state u) = Continue (ex_cycle_state v)"
      by blast
    from eq a s b have "f ex_cycle_env 999 (ex_cycle_state v) = Some r"
      by (simp add: count_cycle_state)
    from IH [OF this] v show False by blast
  qed
qed

lemma cycle_state_walk_none: "walk_loop ex_cycle_env 999 (ex_cycle_state url_a) = None"
proof (cases "walk_loop ex_cycle_env 999 (ex_cycle_state url_a)")
  case None
  then show ?thesis .
next
  case (Some r)
  from cycle_state_no_result [OF this] show ?thesis by simp
qed

text \<open>With a budget of three chapters the same walk ends after the third page.\<close>

lemma walk_on_cycle_budget_three:
  "linked_list_walk ex_cycle_env url_a 3 = Some (Inr (ex_cycle_state url_a))"
proof -
  have "linked_list_walk ex_cycle_env url_a 3 = walk_loop ex_cycle_env 3 (ex_fresh_state url_a)"
    by (simp add: linked_list_walk_def ex_fresh_state_def)
  also have "\<dots> = walk_loop ex_cycle_env 3 ex_state_after_a"
    by (subst walk_loop.simps) (simp add: step1 count_before_cycle)
  also have "\<dots> = walk_loop ex_cycle_env 3 ex_state_after_b"
    by (subst walk_loop.simps) (simp add: step2 count_before_cycle)
  also have "\<dots> = walk_loop ex_cycle_env 3 (ex_cycle_state url_a)"
    by (subst walk_loop.simps) (simp add: step3 count_before_cycle)
  also have "\<dots> = Some (Inr (ex_cycle_state url_a))"
    by (subst walk_loop.simps) (simp add: count_cycle_state)
  finally show ?thesis .
qed

text \<open>
  C5: the linked-list walk ends on every cyclic chain of next-references; on the chain
  A, B, C, A it stops at C. In the source the walk does not stop there. After C the
  current location is A again; A is in the set of crawled locations, so the loop takes
  the stored next-reference of A, then of B, then of C, and so on; the counter that the
  loop condition tests grows only when a page is fetched. With a budget above three
  chapters (here the default, 0, which stands for 999) the loop never ends.
\<close>

theorem walk_on_cycle_never_returns:
  "linked_list_walk ex_cycle_env url_a 0 = None"
proof -
  have "linked_list_walk ex_cycle_env url_a 0 = walk_loop ex_cycle_env 999 (ex_fresh_state url_a)"
    by (simp add: linked_list_walk_def ex_fresh_state_def)
  also have "\<dots> = walk_loop ex_cycle_env 999 ex_state_after_a"
    by (subst walk_loop.simps) (simp add: step1 count_before_cycle)
  also have "\<dots> = walk_loop ex_cycle_env 999 ex_state_after_b"
    by (subst walk_loop.simps) (simp add: step2 count_before_cycle)
  also have "\<dots> = walk_loop ex_cycle_env 999 (ex_cycle_state url_a)"
    by (subst walk_loop.simps) (simp add: step3 count_before_cycle)
  also have "\<dots> = None"
    by (rule cycle_state_walk_none)
  finally show ?thesis .
qed

subsection \<open>Validation of the body and the end of the walk\<close>







lemma loop_body_break_on_directory:
  assumes "current_url s \<notin> crawled_urls s"
    and "crawl_chapter e (current_url s) (walk_novel_name s) (walk_author s) = Some cd"
    and "is_directory_page (next_url cd)"
  shows "\<exists>s'. loop_body e s = Break s'"
  using assms by (simp add: loop_body_def Let_def)




lemma last_env_fields:
  "fetch_chapter ex_last_env url_a = Some (ex_page ex_body url_listing)"
  "urljoin ex_last_env = (\<lambda>base h. h)" "clean_content ex_last_env = (\<lambda>c. c)"
  by (simp_all add: ex_last_env_def ex_site_def)

lemma crawl_last_env_a:
  "crawl_chapter ex_last_env url_a None None
     = Some (ex_record url_a (ascii ''1.html'') url_listing)"
  by (simp add: crawl_ex_page last_env_fields basenames or_else_def ex_record_def)



text \<open>
  C9. \<open>is_directory_page\<close> says chapter page exactly for a location that ends in a
  slash, a non-empty run of digits and \<^verbatim>\<open>.html\<close>; every other location, such as one
  ending in \<^verbatim>\<open>index.html\<close> or in a slash, is a listing page. A next-reference that is
  a listing page ends the linked-list walk.
\<close>

theorem chapter_page_iff_numeric_html:
  "((\<not> is_directory_page u)
      = (\<exists>p ds. u = p @ [slash] @ ds @ dot_html \<and> ds \<noteq> [] \<and> list_all is_digit ds))
   \<and> (current_url s \<notin> crawled_urls s
      \<longrightarrow> crawl_chapter e (current_url s) (walk_novel_name s) (walk_author s) = Some cd
      \<longrightarrow> is_directory_page (next_url cd)
      \<longrightarrow> (\<exists>s'. loop_body e s = Break s'))"
  using is_directory_page_iff loop_body_break_on_directory by blast

theorem chapter_page_iff_numeric_html_witness:
  "\<not> is_directory_page url_a
   \<and> url_a = ascii ''http://x/book'' @ [slash] @ ascii ''1'' @ dot_html
   \<and> is_directory_page url_listing
   \<and> is_directory_page (ascii ''http://x/book/index.html'')
   \<and> current_url (ex_fresh_state url_a) \<notin> crawled_urls (ex_fresh_state url_a)
   \<and> crawl_chapter ex_last_env url_a None None
       = Some (ex_record url_a (ascii ''1.html'') url_listing)
   \<and> (\<exists>s'. loop_body ex_last_env (ex_fresh_state url_a) = Break s')"
proof -
  note t = chapter_page_iff_numeric_html [of url_a "ex_fresh_state url_a" ex_last_env
      "ex_record url_a (ascii ''1.html'') url_listing"]
  have u: "url_a = ascii ''http://x/book'' @ [slash] @ ascii ''1'' @ dot_html"
    by (simp add: url_a_def ascii_def dot_html_def)
  have d: "ascii ''1'' \<noteq> [] \<and> list_all is_digit (ascii ''1'')"
    by (simp add: ascii_def is_digit_low)
  from t u d have a: "\<not> is_directory_page url_a" by blast
  have i: "is_directory_page (ascii ''http://x/book/index.html'')"
    by (simp add: is_directory_page_def search_num_html_def num_html_at_end_def endswith_def
        dot_html_def ascii_def is_digit_low Let_def)
  have n: "current_url (ex_fresh_state url_a) \<notin> crawled_urls (ex_fresh_state url_a)"
    by (simp add: ex_fresh_state_def)
  have w: "walk_novel_name (ex_fresh_state url_a) = None"
    "walk_author (ex_fresh_state url_a) = None" "current_url (ex_fresh_state url_a) = url_a"
    by (simp_all add: ex_fresh_state_def)
  have x: "is_directory_page (next_url (ex_record url_a (ascii ''1.html'') url_listing))"
    by (simp add: ex_record_def listing_is_directory)
  from t n w crawl_last_env_a x
  have b: "\<exists>s'. loop_body ex_last_env (ex_fresh_state url_a) = Break s'"
    by simp
  from a u listing_is_directory i n crawl_last_env_a b show ?thesis by blast
qed

section \<open>Claims on the chapter index resolver\<close>
















end
